theory Spec2Isabelle
  imports Main "HOL-Library.Sublist" "HOL-Library.Word"
begin

section \<open>The OCR application \<^verbatim>\<open>app.py\<close>: data model\<close>

text \<open>
  The program has two functions: \<^verbatim>\<open>pdf_to_text(pdf_file)\<close>, which stages the upload in a
  temporary file, rasterizes it, runs OCR page by page and joins the page texts, and
  \<^verbatim>\<open>main()\<close>, the Streamlit page that calls it and renders the outcome.

  Python strings are lists of characters; a \<^typ>\<open>char\<close> stands for one code point below
  256. The symbols of the fixed labels that lie outside ASCII are written as their UTF-8
  bytes. Byte strings are lists of 8-bit words.
\<close>

type_synonym bytes = "8 word list"
type_synonym path = string

text \<open>A raised Python exception: its class name and \<^verbatim>\<open>str(e)\<close>.\<close>

datatype exn = Exn (exn_class: string) (exn_str: string)

definition ZeroDivisionError :: exn where
  "ZeroDivisionError = Exn ''ZeroDivisionError'' ''division by zero''"

definition FileNotFoundError :: "path \<Rightarrow> exn" where
  "FileNotFoundError p = Exn ''FileNotFoundError'' p"

text \<open>
  The argument \<^verbatim>\<open>pdf_file\<close> is Streamlit's \<^verbatim>\<open>UploadedFile\<close>, an in-memory binary stream
  (\<^verbatim>\<open>io.BytesIO\<close>) with the attributes \<^verbatim>\<open>name\<close> and \<^verbatim>\<open>size\<close>. A stream has a buffer and a
  read position; \<^verbatim>\<open>read()\<close> returns the bytes from the position to the end and leaves the
  position at the end.
\<close>

record upload =
  name :: string
  file_size :: nat
  buffer :: bytes
  pos :: nat

definition read :: "upload \<Rightarrow> bytes \<times> upload" where
  "read f = (drop (pos f) (buffer f), f\<lparr>pos := max (pos f) (length (buffer f))\<rparr>)"

text \<open>
  Everything the program does to the outside is recorded in order: the Streamlit calls, and
  each invocation of the OCR engine (so that its position among the progress reports can be
  stated). \<open>ProgressBar i n\<close> is \<^verbatim>\<open>progress_bar.progress(i / n)\<close>; the quotient is kept as
  numerator and denominator.
\<close>

datatype 'img event =
    ProgressCreate
  | StatusCreate
  | StatusText string
  | ProgressBar nat nat
  | OcrCall 'img
  | Success string
  | Info string
  | InfoFileSize nat
  | Spinner string
  | Metric string nat
  | Markdown string
  | TextArea string string
  | DownloadButton string string string string
  | Warning string
  | Error string

text \<open>The world: the files that exist, with their contents, and the trace of events.\<close>

record 'img world =
  files :: "path \<rightharpoonup> bytes"
  ui :: "'img event list"

definition emit :: "'img event list \<Rightarrow> 'img world \<Rightarrow> 'img world" where
  "emit evs w = w\<lparr>ui := ui w @ evs\<rparr>"

text \<open>
  The external collaborators, as parameters:
  \<^item> \<open>named_temporary_file\<close>: \<^verbatim>\<open>tempfile.NamedTemporaryFile(delete=False, suffix='.pdf')\<close>,
    which either raises or creates an empty file and gives its name;
  \<^item> \<open>tmp_write\<close>: \<^verbatim>\<open>tmp_file.write(bytes)\<close> together with the close at the end of the
    \<^verbatim>\<open>with\<close> block, which may raise (a full disk);
  \<^item> \<open>convert_from_path\<close>: the rasterizer of \<^verbatim>\<open>pdf2image\<close>, a function of the content of
    the file it is pointed at;
  \<^item> \<open>image_to_string\<close>: the OCR engine of \<^verbatim>\<open>pytesseract\<close>.
  The Streamlit calls themselves are taken not to raise.
\<close>

record 'img env =
  named_temporary_file :: "(path \<rightharpoonup> bytes) \<Rightarrow> exn + path"
  tmp_write :: "bytes \<Rightarrow> exn option"
  convert_from_path :: "bytes \<Rightarrow> exn + 'img list"
  image_to_string :: "'img \<Rightarrow> exn + string"

section \<open>Library functions the program calls\<close>

text \<open>\<^verbatim>\<open>os.unlink(path)\<close>: removes the file, raises when there is none.\<close>

definition os_unlink :: "path \<Rightarrow> (path \<rightharpoonup> bytes) \<Rightarrow> exn + (path \<rightharpoonup> bytes)" where
  "os_unlink p fs = (case fs p of None \<Rightarrow> Inl (FileNotFoundError p) | Some _ \<Rightarrow> Inr (fs(p := None)))"

text \<open>\<^verbatim>\<open>sep.join(xs)\<close>.\<close>

fun join :: "string \<Rightarrow> string list \<Rightarrow> string" where
  "join sep [] = []"
| "join sep [x] = x"
| "join sep (x # y # ys) = x @ sep @ join sep (y # ys)"

definition newline :: char where
  "newline = CHR 0x0A"

text \<open>\<^verbatim>\<open>str(n)\<close> for a natural number: its decimal digits.\<close>

function str_nat :: "nat \<Rightarrow> string" where
  "str_nat n = (if n < 10 then [char_of (48 + n)] else str_nat (n div 10) @ [char_of (48 + n mod 10)])"
  by pat_completeness auto
termination
  by (relation "measure id") auto

text \<open>\<^verbatim>\<open>i / n\<close> on integers: raises on a zero divisor.\<close>

definition true_div :: "nat \<Rightarrow> nat \<Rightarrow> exn + nat \<times> nat" where
  "true_div i n = (if n = 0 then Inl ZeroDivisionError else Inr (i, n))"

section \<open>\<^verbatim>\<open>pdf_to_text\<close>\<close>

text \<open>The f-string \<^verbatim>\<open>f"Processing page {i}/{len(pages)}..."\<close>.\<close>

definition processing_msg :: "nat \<Rightarrow> nat \<Rightarrow> string" where
  "processing_msg i n = ''Processing page '' @ str_nat i @ ''/'' @ str_nat n @ ''...''"

text \<open>
  The loop \<^verbatim>\<open>for i, page in enumerate(pages, start=1)\<close>: \<open>n\<close> is \<^verbatim>\<open>len(pages)\<close> of the whole
  list, \<open>i\<close> the running index, \<open>full_text\<close> the list being appended to. An exception of the
  OCR engine leaves the loop at once.
\<close>

fun ocr_loop :: "'img env \<Rightarrow> nat \<Rightarrow> nat \<Rightarrow> 'img list \<Rightarrow> string list \<Rightarrow> 'img world
    \<Rightarrow> (exn + string list) \<times> 'img world" where
  "ocr_loop e n i [] full_text w = (Inr full_text, w)"
| "ocr_loop e n i (page # rest) full_text w =
     (let w1 = emit [StatusText (processing_msg i n)] w in
      case true_div i n of
        Inl err \<Rightarrow> (Inl err, w1)
      | Inr (a, b) \<Rightarrow>
          let w2 = emit [OcrCall page] (emit [ProgressBar a b] w1) in
          (case image_to_string e page of
             Inl err \<Rightarrow> (Inl err, w2)
           | Inr text \<Rightarrow> ocr_loop e n (Suc i) rest (full_text @ [text]) w2))"

text \<open>The body of the \<^verbatim>\<open>try\<close> block (lines 17 to 33).\<close>

definition try_body :: "'img env \<Rightarrow> path \<Rightarrow> 'img world \<Rightarrow> (exn + string) \<times> 'img world" where
  "try_body e tmp_file_path w =
     (case files w tmp_file_path of
        None \<Rightarrow> (Inl (FileNotFoundError tmp_file_path), w)
      | Some content \<Rightarrow>
          (case convert_from_path e content of
             Inl err \<Rightarrow> (Inl err, w)
           | Inr pages \<Rightarrow>
               (case ocr_loop e (length pages) 1 pages [] (emit [ProgressCreate, StatusCreate] w) of
                  (Inl err, w') \<Rightarrow> (Inl err, w')
                | (Inr full_text, w') \<Rightarrow>
                    (Inr (join [newline] full_text),
                     emit [StatusText ''OCR processing complete!''] w'))))"

text \<open>
  The whole function. The \<^verbatim>\<open>with\<close> block that creates and fills the temporary file comes
  before the \<^verbatim>\<open>try\<close>; the \<^verbatim>\<open>finally\<close> clause runs \<^verbatim>\<open>os.unlink\<close> after the \<^verbatim>\<open>try\<close> body,
  whatever its outcome, and an exception of \<^verbatim>\<open>os.unlink\<close> replaces that outcome.
\<close>

definition pdf_to_text :: "'img env \<Rightarrow> upload \<Rightarrow> 'img world \<Rightarrow> (exn + string) \<times> upload \<times> 'img world" where
  "pdf_to_text e pdf_file w =
     (case named_temporary_file e (files w) of
        Inl err \<Rightarrow> (Inl err, pdf_file, w)
      | Inr tmp_file_path \<Rightarrow>
          (let w1 = w\<lparr>files := (files w)(tmp_file_path \<mapsto> [])\<rparr>;
               (content, pdf_file') = read pdf_file
           in case tmp_write e content of
                Some err \<Rightarrow> (Inl err, pdf_file', w1)
              | None \<Rightarrow>
                  (let w2 = w1\<lparr>files := (files w1)(tmp_file_path \<mapsto> content)\<rparr>;
                       (r, w3) = try_body e tmp_file_path w2
                   in case os_unlink tmp_file_path (files w3) of
                        Inl err \<Rightarrow> (Inl err, pdf_file', w3)
                      | Inr fs \<Rightarrow> (r, pdf_file', w3\<lparr>files := fs\<rparr>))))"

section \<open>\<^verbatim>\<open>main\<close>\<close>

text \<open>
  \<^verbatim>\<open>str.isspace\<close> on one character, for the code points below 256: the ASCII white space,
  the separators \<^verbatim>\<open>\x1c\<close> to \<^verbatim>\<open>\x1f\<close>, \<^verbatim>\<open>\x85\<close> and \<^verbatim>\<open>\xa0\<close>.
\<close>

definition isspace :: "char \<Rightarrow> bool" where
  "isspace c = ((of_char c :: nat) \<in> set [9, 10, 11, 12, 13, 28, 29, 30, 31, 32, 133, 160])"

text \<open>\<^verbatim>\<open>s.strip()\<close>: white space removed at both ends.\<close>

definition strip :: "string \<Rightarrow> string" where
  "strip s = rev (dropWhile isspace (rev (dropWhile isspace s)))"

text \<open>
  \<^verbatim>\<open>s.split()\<close>: the maximal runs of characters that are not white space; \<open>cur\<close> is the run
  being read.
\<close>

fun split_ws :: "string \<Rightarrow> string \<Rightarrow> string list" where
  "split_ws [] cur = (if cur = [] then [] else [cur])"
| "split_ws (c # cs) cur =
     (if isspace c then (if cur = [] then split_ws cs [] else cur # split_ws cs [])
      else split_ws cs (cur @ [c]))"

text \<open>\<^verbatim>\<open>s.split(sep)\<close> for a separator of one character.\<close>

fun split_on :: "char \<Rightarrow> string \<Rightarrow> string \<Rightarrow> string list" where
  "split_on sep [] cur = [cur]"
| "split_on sep (c # cs) cur =
     (if c = sep then cur # split_on sep cs [] else split_on sep cs (cur @ [c]))"

text \<open>
  \<^verbatim>\<open>s.replace(old, new)\<close>, written \<open>replace old new s\<close>: every occurrence of \<open>old\<close>, found
  from the left and not overlapping an earlier one, is replaced. An empty \<open>old\<close> matches
  before every character and at the end.
\<close>

function replace :: "string \<Rightarrow> string \<Rightarrow> string \<Rightarrow> string" where
  "replace old new [] = (if old = [] then new else [])"
| "replace old new (c # cs) =
     (if old = [] then new @ c # replace old new cs
      else if prefix old (c # cs) then new @ replace old new (drop (length old) (c # cs))
      else c # replace old new cs)"
  by pat_completeness auto
termination
  by (relation "measure (\<lambda>(old, new, s). length s)") auto

text \<open>The f-string \<^verbatim>\<open>f"{uploaded_file.name.replace('.pdf', '')}_extracted.txt"\<close>.\<close>

definition download_file_name :: "string \<Rightarrow> string" where
  "download_file_name nm = replace ''.pdf'' [] nm @ ''_extracted.txt''"

text \<open>The fixed labels; the leading symbols are U+2705, U+1F4DD, U+1F4BE, U+26A0 U+FE0F and U+274C.\<close>

definition success_msg :: string where
  "success_msg = [CHR 0xE2, CHR 0x9C, CHR 0x85] @ '' Text extraction completed!''"

definition extracted_heading :: string where
  "extracted_heading = ''### '' @ [CHR 0xF0, CHR 0x9F, CHR 0x93, CHR 0x9D] @ '' Extracted Text''"

definition download_label :: string where
  "download_label = [CHR 0xF0, CHR 0x9F, CHR 0x92, CHR 0xBE] @ '' Download as TXT file''"

definition warning_msg :: string where
  "warning_msg = [CHR 0xE2, CHR 0x9A, CHR 0xA0, CHR 0xEF, CHR 0xB8, CHR 0x8F] @
     '' No text could be extracted from the PDF. The file might contain only images or be corrupted.''"

definition error_msg :: "exn \<Rightarrow> string" where
  "error_msg err = [CHR 0xE2, CHR 0x9D, CHR 0x8C] @ '' Error processing PDF: '' @ exn_str err"

definition error_hint :: string where
  "error_hint = ''Make sure the PDF file is not corrupted and contains readable content.''"

text \<open>
  Lines 58 and 59: the two messages shown for an uploaded file. The second one prints
  \<^verbatim>\<open>uploaded_file.size / 1024\<close> with two decimals; the event keeps the size.
\<close>

definition announce :: "upload \<Rightarrow> 'img world \<Rightarrow> 'img world" where
  "announce f w = emit [Success (''File uploaded: '' @ name f), InfoFileSize (file_size f)] w"

text \<open>Lines 69 to 96: what is rendered for a text that is not blank.\<close>

definition render_text :: "upload \<Rightarrow> string \<Rightarrow> 'img event list" where
  "render_text f extracted_text =
     [Success success_msg,
      Metric ''Characters'' (length extracted_text),
      Metric ''Words'' (length (split_ws extracted_text [])),
      Metric ''Lines'' (length (split_on newline extracted_text [])),
      Markdown extracted_heading,
      TextArea ''Copy the text below:'' extracted_text,
      DownloadButton download_label extracted_text (download_file_name (name f)) ''text/plain'']"

text \<open>
  Lines 56 to 103 of \<^verbatim>\<open>main\<close>: \<open>uploaded_file\<close> is what \<^verbatim>\<open>st.file_uploader\<close> returned,
  \<open>clicked\<close> what \<^verbatim>\<open>st.button\<close> returned. The page furniture around it (title, the two
  expanders) is rendered the same on every run and is left out.
\<close>

definition main :: "'img env \<Rightarrow> upload option \<Rightarrow> bool \<Rightarrow> 'img world \<Rightarrow> upload option \<times> 'img world" where
  "main e uploaded_file clicked w =
     (case uploaded_file of
        None \<Rightarrow> (None, w)
      | Some f \<Rightarrow>
          (let w1 = announce f w in
           if \<not> clicked then (Some f, w1)
           else
             (case pdf_to_text e f (emit [Spinner ''Processing PDF... This may take a few moments.''] w1) of
                (Inr extracted_text, f', w2) \<Rightarrow>
                  if strip extracted_text \<noteq> [] then (Some f', emit (render_text f extracted_text) w2)
                  else (Some f', emit [Warning warning_msg] w2)
              | (Inl err, f', w2) \<Rightarrow>
                  (Some f', emit [Error (error_msg err), Info error_hint] w2))))"

section \<open>Observations on a trace\<close>

text \<open>The progress reports \<open>(currentPage, totalPages)\<close> made through the progress bar.\<close>

fun bar_reports :: "'img event list \<Rightarrow> (nat \<times> nat) list" where
  "bar_reports [] = []"
| "bar_reports (ProgressBar i n # evs) = (i, n) # bar_reports evs"
| "bar_reports (_ # evs) = bar_reports evs"

text \<open>The texts shown in the status line.\<close>

fun status_texts :: "'img event list \<Rightarrow> string list" where
  "status_texts [] = []"
| "status_texts (StatusText s # evs) = s # status_texts evs"
| "status_texts (_ # evs) = status_texts evs"

text \<open>The page images handed to the OCR engine.\<close>

fun ocr_calls :: "'img event list \<Rightarrow> 'img list" where
  "ocr_calls [] = []"
| "ocr_calls (OcrCall p # evs) = p # ocr_calls evs"
| "ocr_calls (_ # evs) = ocr_calls evs"

text \<open>
  What one turn of the loop does for page number \<open>i\<close> of \<open>n\<close>, in order: the status line, the
  progress bar, the OCR call.
\<close>

fun page_events :: "nat \<Rightarrow> nat \<Rightarrow> 'img list \<Rightarrow> 'img event list" where
  "page_events n i [] = []"
| "page_events n i (p # ps) =
     [StatusText (processing_msg i n), ProgressBar i n, OcrCall p] @ page_events n (Suc i) ps"

text \<open>
  The OCR engine run over a list of pages without any effect: the texts when every page
  succeeds, the first exception otherwise.
\<close>

fun ocr_texts :: "'img env \<Rightarrow> 'img list \<Rightarrow> exn + string list" where
  "ocr_texts e [] = Inr []"
| "ocr_texts e (p # ps) =
     (case image_to_string e p of
        Inl err \<Rightarrow> Inl err
      | Inr t \<Rightarrow> (case ocr_texts e ps of Inl err \<Rightarrow> Inl err | Inr ts \<Rightarrow> Inr (t # ts)))"

text \<open>The pages up to and including the first one on which the OCR engine raises.\<close>

fun attempted :: "'img env \<Rightarrow> 'img list \<Rightarrow> 'img list" where
  "attempted e [] = []"
| "attempted e (p # ps) =
     (case image_to_string e p of Inl err \<Rightarrow> [p] | Inr t \<Rightarrow> p # attempted e ps)"

text \<open>The warnings and the errors shown on the page.\<close>

fun shown_warnings :: "'img event list \<Rightarrow> string list" where
  "shown_warnings [] = []"
| "shown_warnings (Warning s # evs) = s # shown_warnings evs"
| "shown_warnings (_ # evs) = shown_warnings evs"

fun shown_errors :: "'img event list \<Rightarrow> string list" where
  "shown_errors [] = []"
| "shown_errors (Error s # evs) = s # shown_errors evs"
| "shown_errors (_ # evs) = shown_errors evs"

text \<open>
  The outcome and the events of a run whose upload was staged, read off the rasterizer and
  the OCR engine alone. Lemma \<open>pdf_to_text_run\<close> below proves that \<open>pdf_to_text\<close> computes
  exactly these.
\<close>

definition extract_text :: "'img env \<Rightarrow> bytes \<Rightarrow> exn + string" where
  "extract_text e content =
     (case convert_from_path e content of
        Inl err \<Rightarrow> Inl err
      | Inr pages \<Rightarrow>
          (case ocr_texts e pages of Inl err \<Rightarrow> Inl err | Inr ts \<Rightarrow> Inr (join [newline] ts)))"

definition run_events :: "'img env \<Rightarrow> bytes \<Rightarrow> 'img event list" where
  "run_events e content =
     (case convert_from_path e content of
        Inl err \<Rightarrow> []
      | Inr pages \<Rightarrow>
          [ProgressCreate, StatusCreate] @ page_events (length pages) 1 (attempted e pages) @
          (case ocr_texts e pages of Inl err \<Rightarrow> [] | Inr ts \<Rightarrow> [StatusText ''OCR processing complete!'']))"

section \<open>The download name as the specification words it\<close>

text \<open>
  The specification names the download by removing the suffix \<^verbatim>\<open>.pdf\<close> from the original
  name. These two definitions follow those words, for comparison with \<open>download_file_name\<close>.
\<close>

definition remove_pdf_suffix :: "string \<Rightarrow> string" where
  "remove_pdf_suffix nm = (if suffix ''.pdf'' nm then take (length nm - 4) nm else nm)"

definition claimed_download_name :: "string \<Rightarrow> string" where
  "claimed_download_name nm = remove_pdf_suffix nm @ ''_extracted.txt''"

section \<open>Concrete inputs\<close>

text \<open>
  Page images are numbered. \<open>demo_env\<close> rasterizes every non-empty file into three pages that
  read \<^verbatim>\<open>A\<close>, nothing and \<^verbatim>\<open>B\<close>, and rejects an empty file as \<^verbatim>\<open>pdf2image\<close> does.
\<close>

definition demo_env :: "nat env" where
  "demo_env =
     \<lparr>named_temporary_file = (\<lambda>fs. Inr ''/tmp/tmpq7.pdf''),
      tmp_write = (\<lambda>b. None),
      convert_from_path = (\<lambda>b. if b = [] then Inl (Exn ''PDFPageCountError'' ''Unable to get page count.'')
                               else Inr [0, 1, 2]),
      image_to_string = (\<lambda>p. Inr (if p = 0 then ''A'' else if p = 1 then [] else ''B''))\<rparr>"

text \<open>The OCR engine raises on the second page.\<close>

definition failing_ocr_env :: "nat env" where
  "failing_ocr_env =
     \<lparr>named_temporary_file = (\<lambda>fs. Inr ''/tmp/tmpq7.pdf''),
      tmp_write = (\<lambda>b. None),
      convert_from_path = (\<lambda>b. Inr [0, 1, 2]),
      image_to_string = (\<lambda>p. if p = 1 then Inl (Exn ''TesseractError'' ''(1, Error during processing.)'')
                             else Inr ''A'')\<rparr>"

text \<open>The rasterizer finds no page.\<close>

definition no_pages_env :: "nat env" where
  "no_pages_env =
     \<lparr>named_temporary_file = (\<lambda>fs. Inr ''/tmp/tmpq7.pdf''),
      tmp_write = (\<lambda>b. None),
      convert_from_path = (\<lambda>b. Inr []),
      image_to_string = (\<lambda>p. Inr ''A'')\<rparr>"

text \<open>Two pages on which the OCR engine reads nothing and a single space.\<close>

definition blank_pages_env :: "nat env" where
  "blank_pages_env =
     \<lparr>named_temporary_file = (\<lambda>fs. Inr ''/tmp/tmpq7.pdf''),
      tmp_write = (\<lambda>b. None),
      convert_from_path = (\<lambda>b. Inr [0, 1]),
      image_to_string = (\<lambda>p. Inr (if p = 0 then [] else '' ''))\<rparr>"

text \<open>Writing the temporary file fails: the disk is full.\<close>

definition disk_full_env :: "nat env" where
  "disk_full_env =
     \<lparr>named_temporary_file = (\<lambda>fs. Inr ''/tmp/tmpq7.pdf''),
      tmp_write = (\<lambda>b. Some (Exn ''OSError'' ''[Errno 28] No space left on device'')),
      convert_from_path = (\<lambda>b. Inr [0, 1, 2]),
      image_to_string = (\<lambda>p. Inr ''A'')\<rparr>"

definition demo_upload :: upload where
  "demo_upload = \<lparr>name = ''doc.pdf'', file_size = 2, buffer = [37, 80], pos = 0\<rparr>"

definition not_a_pdf :: upload where
  "not_a_pdf = \<lparr>name = ''notes.pdf'', file_size = 0, buffer = [], pos = 0\<rparr>"

definition archive_upload :: upload where
  "archive_upload = \<lparr>name = ''my.pdf.v2.pdf'', file_size = 2, buffer = [37, 80], pos = 0\<rparr>"

definition demo_world :: "nat world" where
  "demo_world = \<lparr>files = Map.empty, ui = []\<rparr>"

section \<open>The events and the world\<close>

lemma emit_emit: "emit b (emit a w) = emit (a @ b) w"
  by (simp add: emit_def)

lemma emit_Nil: "emit [] w = w"
  by (simp add: emit_def)

lemma bar_reports_append: "bar_reports (xs @ ys) = bar_reports xs @ bar_reports ys"
  by (induction xs rule: bar_reports.induct) simp_all

lemma status_texts_append: "status_texts (xs @ ys) = status_texts xs @ status_texts ys"
  by (induction xs rule: status_texts.induct) simp_all

lemma ocr_calls_append: "ocr_calls (xs @ ys) = ocr_calls xs @ ocr_calls ys"
  by (induction xs rule: ocr_calls.induct) simp_all

lemma shown_warnings_append: "shown_warnings (xs @ ys) = shown_warnings xs @ shown_warnings ys"
  by (induction xs rule: shown_warnings.induct) simp_all

lemma shown_errors_append: "shown_errors (xs @ ys) = shown_errors xs @ shown_errors ys"
  by (induction xs rule: shown_errors.induct) simp_all

lemma upt_step: "[i..<i + Suc k] = i # [Suc i..<Suc i + k]"
  by (simp add: upt_conv_Cons)

lemma bar_reports_page_events:
  "bar_reports (page_events n i ps) = map (\<lambda>j. (j, n)) [i..<i + length ps]"
proof (induction ps arbitrary: i)
  case Nil
  show ?case by simp
next
  case (Cons p ps)
  from Cons.IH [of "Suc i"] show ?case
    by (simp only: page_events.simps append.simps bar_reports.simps length_Cons upt_step list.map)
qed

lemma status_texts_page_events:
  "status_texts (page_events n i ps) = map (\<lambda>j. processing_msg j n) [i..<i + length ps]"
proof (induction ps arbitrary: i)
  case Nil
  show ?case by simp
next
  case (Cons p ps)
  from Cons.IH [of "Suc i"] show ?case
    by (simp only: page_events.simps append.simps status_texts.simps length_Cons upt_step list.map)
qed

lemma ocr_calls_page_events: "ocr_calls (page_events n i ps) = ps"
  by (induction ps arbitrary: i) simp_all

lemma shown_warnings_page_events: "shown_warnings (page_events n i ps) = []"
  by (induction ps arbitrary: i) simp_all

lemma shown_errors_page_events: "shown_errors (page_events n i ps) = []"
  by (induction ps arbitrary: i) simp_all

section \<open>What a run computes\<close>

text \<open>
  The loop, once and for all: its outcome is that of the OCR engine over the pages, and it
  emits the page events of the pages it attempted. The page count passed in is positive
  whenever there is a page, so the quotient never raises.
\<close>

lemma ocr_loop_run:
  "pages = [] \<or> 0 < n \<Longrightarrow>
   ocr_loop e n i pages full_text w =
     ((case ocr_texts e pages of Inl err \<Rightarrow> Inl err | Inr ts \<Rightarrow> Inr (full_text @ ts)),
      emit (page_events n i (attempted e pages)) w)"
proof (induction pages arbitrary: i full_text w)
  case Nil
  show ?case by (simp add: emit_Nil)
next
  case (Cons p ps)
  then have n: "0 < n" by simp
  show ?case
  proof (cases "image_to_string e p")
    case (Inl err)
    with n show ?thesis by (simp add: true_div_def emit_emit)
  next
    case (Inr t)
    with n Cons.IH [of "Suc i" "full_text @ [t]"] show ?thesis
      by (simp add: true_div_def emit_emit split: sum.splits)
  qed
qed

lemma attempted_all: "ocr_texts e pages = Inr ts \<Longrightarrow> attempted e pages = pages"
  by (induction pages arbitrary: ts) (auto split: sum.splits)

lemma ocr_texts_map: "ocr_texts e pages = Inr ts \<longleftrightarrow> map (image_to_string e) pages = map Inr ts"
proof (induction pages arbitrary: ts)
  case Nil
  show ?case by auto
next
  case (Cons p ps)
  show ?case
  proof (cases ts)
    case Nil
    then show ?thesis by (simp split: sum.splits)
  next
    case (Cons t ts')
    with Cons.IH [of ts'] show ?thesis
      by (cases "ocr_texts e ps"; cases "image_to_string e p") auto
  qed
qed

lemma ocr_texts_no_zero_division:
  assumes "\<forall>p \<in> set pages. image_to_string e p \<noteq> Inl ZeroDivisionError"
  shows "ocr_texts e pages \<noteq> Inl ZeroDivisionError"
  using assms by (induction pages) (auto split: sum.splits)

text \<open>
  When the OCR engine raises on page \<open>k\<close> (counted from 0), the pages attempted are a
  non-empty prefix that ends at the first page on which it raises.
\<close>

lemma attempted_failure:
  assumes "k < length pages" and "image_to_string e (pages ! k) = Inl err"
  shows "\<exists>m err'. 0 < m \<and> m \<le> Suc k \<and> attempted e pages = take m pages \<and>
           image_to_string e (pages ! (m - 1)) = Inl err' \<and> ocr_texts e pages = Inl err' \<and>
           ((\<forall>j<k. \<forall>x. image_to_string e (pages ! j) \<noteq> Inl x) \<longrightarrow> m = Suc k \<and> err' = err)"
  using assms
proof (induction pages arbitrary: k)
  case Nil
  then show ?case by simp
next
  case (Cons p ps)
  show ?case
  proof (cases "image_to_string e p")
    case (Inl x)
    have "(\<forall>j<k. \<forall>x. image_to_string e ((p # ps) ! j) \<noteq> Inl x) \<longrightarrow> k = 0"
      using Inl by (cases k) auto
    moreover have "k = 0 \<longrightarrow> x = err"
      using Inl Cons.prems(2) by auto
    ultimately show ?thesis
      using Inl by (intro exI [of _ 1] exI [of _ x]) auto
  next
    case (Inr t)
    with Cons.prems obtain k' where k: "k = Suc k'"
      by (cases k) auto
    with Cons.prems have "k' < length ps" and "image_to_string e (ps ! k') = Inl err"
      by simp_all
    from Cons.IH [OF this] obtain m err' where m: "0 < m" "m \<le> Suc k'"
      "attempted e ps = take m ps" "image_to_string e (ps ! (m - 1)) = Inl err'"
      "ocr_texts e ps = Inl err'"
      "(\<forall>j<k'. \<forall>x. image_to_string e (ps ! j) \<noteq> Inl x) \<longrightarrow> m = Suc k' \<and> err' = err"
      by blast
    have first: "(\<forall>j<k. \<forall>x. image_to_string e ((p # ps) ! j) \<noteq> Inl x) \<longrightarrow>
        (\<forall>j<k'. \<forall>x. image_to_string e (ps ! j) \<noteq> Inl x)"
      using k by auto
    from m(1) have nth: "(p # ps) ! (Suc m - 1) = ps ! (m - 1)"
      by (cases m) simp_all
    show ?thesis
      using Inr m first nth k by (intro exI [of _ "Suc m"] exI [of _ err']) auto
  qed
qed

text \<open>The \<^verbatim>\<open>try\<close> body on a staged file.\<close>

lemma try_body_run:
  assumes "files w p = Some content"
  shows "try_body e p w = (extract_text e content, emit (run_events e content) w)"
proof (cases "convert_from_path e content")
  case (Inl err)
  with assms show ?thesis
    by (simp add: try_body_def extract_text_def run_events_def emit_Nil)
next
  case (Inr pages)
  have n: "pages = [] \<or> 0 < length pages" by (cases pages) simp_all
  show ?thesis
    using assms Inr
    by (simp add: try_body_def extract_text_def run_events_def ocr_loop_run [OF n] emit_emit
        emit_Nil split: sum.splits)
qed

text \<open>
  The whole function, when the temporary file could be created and written: the outcome, the
  stream after the read, the staged file removed, the events appended.
\<close>

lemma pdf_to_text_run:
  assumes tmp: "named_temporary_file e (files w) = Inr p"
    and wr: "tmp_write e (fst (read f)) = None"
  shows "pdf_to_text e f w =
     (extract_text e (fst (read f)), snd (read f),
      \<lparr>files = (files w)(p := None), ui = ui w @ run_events e (fst (read f))\<rparr>)"
proof -
  obtain content f' where rd: "read f = (content, f')" by (cases "read f")
  let ?w2 = "w\<lparr>files := (files w)(p \<mapsto> content)\<rparr>"
  have "files ?w2 p = Some content" by simp
  then have tb: "try_body e p ?w2 = (extract_text e content, emit (run_events e content) ?w2)"
    by (rule try_body_run)
  show ?thesis
    using tmp wr rd by (simp add: pdf_to_text_def tb emit_def os_unlink_def)
qed

lemma pdf_to_text_events:
  assumes "named_temporary_file e (files w) = Inr p"
    and "tmp_write e (fst (read f)) = None"
    and "convert_from_path e (fst (read f)) = Inr pages"
  shows "ui (snd (snd (pdf_to_text e f w))) =
           ui w @ [ProgressCreate, StatusCreate] @
           page_events (length pages) 1 (attempted e pages) @
           (case ocr_texts e pages of Inl err \<Rightarrow> [] | Inr ts \<Rightarrow> [StatusText ''OCR processing complete!''])"
  by (simp add: pdf_to_text_run [OF assms(1,2)] run_events_def assms(3))

text \<open>
  On every exit path that is reached after the temporary file was written (a result, a
  rasterizer failure, an OCR failure), the file is gone.
\<close>

lemma staged_file_removed:
  assumes "named_temporary_file e (files w) = Inr p"
    and "tmp_write e (fst (read f)) = None"
  shows "files (snd (snd (pdf_to_text e f w))) p = None"
  by (simp add: pdf_to_text_run [OF assms])

section \<open>Strings\<close>

lemma count_list_join:
  "count_list (join [c] ts) c = sum_list (map (\<lambda>t. count_list t c) ts) + (length ts - 1)"
  by (induction "[c]" ts rule: join.induct) simp_all

lemma isspace_newline: "isspace newline"
  by (simp add: isspace_def newline_def)

lemma join_blank:
  "\<forall>t \<in> set texts. \<forall>c \<in> set t. isspace c \<Longrightarrow> \<forall>c \<in> set (join [newline] texts). isspace c"
  by (induction "[newline]" texts rule: join.induct) (auto simp: isspace_newline)

lemma strip_blank:
  assumes "\<forall>c \<in> set s. isspace c"
  shows "strip s = []"
proof -
  from assms have d: "dropWhile isspace s = []"
    by simp
  show ?thesis
    unfolding strip_def d by simp
qed

text \<open>
  A name that ends in \<^verbatim>\<open>.pdf\<close> and has no other occurrence of it: no match begins inside the
  stem, because the pattern starts with the only dot it has.
\<close>

lemma no_early_match:
  assumes "\<not> sublist ''.pdf'' (c # cs)"
  shows "\<not> prefix ''.pdf'' (c # cs @ ''.pdf'')"
proof
  assume p: "prefix ''.pdf'' (c # cs @ ''.pdf'')"
  then have c: "c = CHR ''.''" and rest: "prefix ''pdf'' (cs @ ''.pdf'')"
    by auto
  have "prefix ''pdf'' cs"
  proof (cases cs)
    case Nil
    with rest show ?thesis by simp
  next
    case (Cons a as)
    note cs = Cons
    show ?thesis
    proof (cases as)
      case Nil
      with rest cs show ?thesis by simp
    next
      case (Cons b bs)
      note as = Cons
      show ?thesis
      proof (cases bs)
        case Nil
        with rest cs as show ?thesis by simp
      next
        case (Cons d ds)
        with rest cs as show ?thesis by simp
      qed
    qed
  qed
  with c have "prefix ''.pdf'' (c # cs)" by simp
  then have "sublist ''.pdf'' (c # cs)" by (rule prefix_imp_sublist)
  with assms show False by contradiction
qed

lemma replace_only_suffix:
  "\<not> sublist ''.pdf'' stem \<Longrightarrow> replace ''.pdf'' [] (stem @ ''.pdf'') = stem"
proof (induction stem)
  case Nil
  show ?case by simp
next
  case (Cons c cs)
  from Cons.prems have np: "\<not> prefix ''.pdf'' (c # cs @ ''.pdf'')"
    by (rule no_early_match)
  from Cons.prems have "\<not> sublist ''.pdf'' cs"
    by (auto simp: sublist_Cons_right)
  then have ih: "replace ''.pdf'' [] (cs @ ''.pdf'') = cs"
    by (rule Cons.IH)
  have "replace ''.pdf'' [] (c # cs @ ''.pdf'') = c # replace ''.pdf'' [] (cs @ ''.pdf'')"
    by (subst replace.simps(2)) (simp only: np if_False list.simps)
  with ih show ?case by simp
qed

section \<open>What the page shows\<close>

text \<open>
  \<open>pdf_to_text\<close> itself shows neither a warning nor an error, on any path; when it raises,
  \<open>main\<close> shows the error message for the exception and no warning.
\<close>

lemma shown_run_events:
  "shown_warnings (run_events e content) = [] \<and> shown_errors (run_events e content) = []"
  by (simp add: run_events_def shown_warnings_append shown_errors_append
      shown_warnings_page_events shown_errors_page_events split: sum.splits)

lemma pdf_to_text_shows_nothing:
  "shown_warnings (ui (snd (snd (pdf_to_text e f w)))) = shown_warnings (ui w) \<and>
   shown_errors (ui (snd (snd (pdf_to_text e f w)))) = shown_errors (ui w)"
proof (cases "named_temporary_file e (files w)")
  case (Inl err)
  then show ?thesis by (simp add: pdf_to_text_def)
next
  case (Inr p)
  show ?thesis
  proof (cases "tmp_write e (fst (read f))")
    case (Some err)
    obtain content f' where rd: "read f = (content, f')" by (cases "read f")
    with Inr Some show ?thesis
      by (simp add: pdf_to_text_def)
  next
    case None
    show ?thesis
      by (simp add: pdf_to_text_run [OF Inr None] shown_warnings_append shown_errors_append
          shown_run_events)
  qed
qed

lemma main_failure_shows_error:
  assumes "fst (pdf_to_text e f (emit [Spinner ''Processing PDF... This may take a few moments.''] (announce f w))) = Inl err"
  shows "shown_warnings (ui (snd (main e (Some f) True w))) = shown_warnings (ui w) \<and>
         shown_errors (ui (snd (main e (Some f) True w))) = shown_errors (ui w) @ [error_msg err]"
proof -
  let ?w1 = "emit [Spinner ''Processing PDF... This may take a few moments.''] (announce f w)"
  from assms obtain f' w2 where run: "pdf_to_text e f ?w1 = (Inl err, f', w2)"
    by (cases "pdf_to_text e f ?w1") auto
  from pdf_to_text_shows_nothing [of e f ?w1] run
  have w2: "shown_warnings (ui w2) = shown_warnings (ui ?w1)"
    "shown_errors (ui w2) = shown_errors (ui ?w1)"
    by simp_all
  have w1: "shown_warnings (ui ?w1) = shown_warnings (ui w)" "shown_errors (ui ?w1) = shown_errors (ui w)"
    by (simp_all add: emit_def announce_def shown_warnings_append shown_errors_append)
  have "main e (Some f) True w = (Some f', emit [Error (error_msg err), Info error_hint] w2)"
    by (simp add: main_def run)
  then have "ui (snd (main e (Some f) True w)) = ui w2 @ [Error (error_msg err), Info error_hint]"
    by (simp add: emit_def)
  then show ?thesis
    by (simp add: shown_warnings_append shown_errors_append w2 w1)
qed

text \<open>
  A stream that has been read to its end delivers no bytes until it is rewound: as an input
  it is the empty document, not the document it held.
\<close>

lemma read_after_read: "fst (read (snd (read f))) = []"
  by (simp add: read_def)

section \<open>The claims\<close>

text \<open>
  Claim C1. When the upload is staged, the rasterizer yields the pages and the OCR engine
  yields a text for every page, \<open>pdf_to_text\<close> returns the page texts joined in page order
  with one newline per page boundary: the result has, besides the newlines of the texts
  themselves, one newline less than there are pages. The texts \<^verbatim>\<open>A\<close>, empty and \<^verbatim>\<open>B\<close>
  give \<^verbatim>\<open>A\n\nB\<close>.
\<close>

theorem pdf_to_text_joins_pages:
  assumes "named_temporary_file e (files w) = Inr p"
    and "tmp_write e (fst (read f)) = None"
    and "convert_from_path e (fst (read f)) = Inr pages"
    and "map (image_to_string e) pages = map Inr texts"
  shows "fst (pdf_to_text e f w) = Inr (join [newline] texts) \<and>
         count_list (join [newline] texts) newline =
           sum_list (map (\<lambda>t. count_list t newline) texts) + (length pages - 1) \<and>
         join [newline] [''A'', [], ''B''] = ''A'' @ [newline, newline] @ ''B''"
proof -
  from assms(4) have ts: "ocr_texts e pages = Inr texts"
    by (simp add: ocr_texts_map)
  from assms(4) have len: "length pages = length texts"
    by (metis length_map)
  have "fst (pdf_to_text e f w) = Inr (join [newline] texts)"
    by (simp add: pdf_to_text_run [OF assms(1,2)] extract_text_def assms(3) ts)
  then show ?thesis
    by (simp add: count_list_join len)
qed

theorem pdf_to_text_joins_pages_witness:
  "named_temporary_file demo_env (files demo_world) = Inr ''/tmp/tmpq7.pdf'' \<and>
   tmp_write demo_env (fst (read demo_upload)) = None \<and>
   convert_from_path demo_env (fst (read demo_upload)) = Inr [0, 1, 2] \<and>
   map (image_to_string demo_env) [0, 1, 2] = map Inr [''A'', [], ''B''] \<and>
   fst (pdf_to_text demo_env demo_upload demo_world) = Inr (''A'' @ [newline, newline] @ ''B'')"
proof -
  have h1: "named_temporary_file demo_env (files demo_world) = Inr ''/tmp/tmpq7.pdf''"
    by (simp add: demo_env_def)
  have h2: "tmp_write demo_env (fst (read demo_upload)) = None"
    by (simp add: demo_env_def)
  have h3: "convert_from_path demo_env (fst (read demo_upload)) = Inr [0, 1, 2]"
    by (simp add: demo_env_def demo_upload_def read_def)
  have h4: "map (image_to_string demo_env) [0, 1, 2] = map Inr [''A'', [], ''B'']"
    by (simp add: demo_env_def)
  from pdf_to_text_joins_pages [OF h1 h2 h3 h4] h1 h2 h3 h4 show ?thesis
    by simp
qed

text \<open>
  Claim C2. On a run in which rasterization and every OCR call succeed, the progress bar is
  set exactly once per page, to \<open>(1, N), \<dots>, (N, N)\<close> in this order, where \<open>N\<close> is the
  number of pages; the status line shows the matching texts and then the closing message.
  (Creating the bar with \<^verbatim>\<open>st.progress(0)\<close> is not a report.)
\<close>

theorem progress_reported_once_per_page:
  assumes "named_temporary_file e (files w) = Inr p"
    and "tmp_write e (fst (read f)) = None"
    and "convert_from_path e (fst (read f)) = Inr pages"
    and "map (image_to_string e) pages = map Inr texts"
  shows "bar_reports (ui (snd (snd (pdf_to_text e f w)))) =
           bar_reports (ui w) @ map (\<lambda>i. (i, length pages)) [1..<Suc (length pages)] \<and>
         status_texts (ui (snd (snd (pdf_to_text e f w)))) =
           status_texts (ui w) @ map (\<lambda>i. processing_msg i (length pages)) [1..<Suc (length pages)] @
           [''OCR processing complete!'']"
proof -
  from assms(4) have ts: "ocr_texts e pages = Inr texts"
    by (simp add: ocr_texts_map)
  have ev: "ui (snd (snd (pdf_to_text e f w))) =
      ui w @ [ProgressCreate, StatusCreate] @ page_events (length pages) 1 pages @
      [StatusText ''OCR processing complete!'']"
    by (simp add: pdf_to_text_events [OF assms(1,2,3)] ts attempted_all [OF ts])
  show ?thesis
    by (simp add: ev bar_reports_append status_texts_append bar_reports_page_events
        status_texts_page_events)
qed

theorem progress_reported_once_per_page_witness:
  "named_temporary_file demo_env (files demo_world) = Inr ''/tmp/tmpq7.pdf'' \<and>
   tmp_write demo_env (fst (read demo_upload)) = None \<and>
   convert_from_path demo_env (fst (read demo_upload)) = Inr [0, 1, 2] \<and>
   map (image_to_string demo_env) [0, 1, 2] = map Inr [''A'', [], ''B''] \<and>
   bar_reports (ui (snd (snd (pdf_to_text demo_env demo_upload demo_world)))) =
     [(1, 3), (2, 3), (3, 3)]"
proof -
  have h1: "named_temporary_file demo_env (files demo_world) = Inr ''/tmp/tmpq7.pdf''"
    by (simp add: demo_env_def)
  have h2: "tmp_write demo_env (fst (read demo_upload)) = None"
    by (simp add: demo_env_def)
  have h3: "convert_from_path demo_env (fst (read demo_upload)) = Inr [0, 1, 2]"
    by (simp add: demo_env_def demo_upload_def read_def)
  have h4: "map (image_to_string demo_env) [0, 1, 2] = map Inr [''A'', [], ''B'']"
    by (simp add: demo_env_def)
  have u: "[1..<Suc (length [0::nat, 1, 2])] = [1, 2, 3]"
    by (simp add: upt_rec)
  have w: "bar_reports (ui demo_world) = []"
    by (simp add: demo_world_def)
  from progress_reported_once_per_page [OF h1 h2 h3 h4] h1 h2 h3 h4 show ?thesis
    by (simp add: u w)
qed

text \<open>
  Claim C3. The claim asks that the temporary file be gone on every exit path, also when
  writing the staged bytes fails. The \<^verbatim>\<open>with\<close> block that creates and writes the file
  stands before the \<^verbatim>\<open>try\<close>, so an exception of the write leaves \<open>pdf_to_text\<close> without
  passing through \<^verbatim>\<open>finally\<close>: on a full disk the call raises and the file, created with
  \<^verbatim>\<open>delete=False\<close>, is still there.
\<close>

theorem write_failure_leaves_staged_file:
  "fst (pdf_to_text disk_full_env demo_upload demo_world) =
     Inl (Exn ''OSError'' ''[Errno 28] No space left on device'') \<and>
   files demo_world ''/tmp/tmpq7.pdf'' = None \<and>
   files (snd (snd (pdf_to_text disk_full_env demo_upload demo_world))) ''/tmp/tmpq7.pdf'' = Some []"
  by (simp add: pdf_to_text_def disk_full_env_def demo_world_def read_def demo_upload_def)

text \<open>
  Claim C4. When the OCR engine raises on page \<open>k\<close> (counted from 0) of a staged and
  rasterized document, \<open>pdf_to_text\<close> raises the exception of the first page \<open>m - 1 \<le> k\<close> on
  which the engine raises and returns no string; the engine was called once on each of the
  first \<open>m\<close> pages, in order, and on no page twice. When no earlier page fails, \<open>m - 1\<close> is \<open>k\<close>.
\<close>

theorem ocr_failure_aborts:
  assumes "named_temporary_file e (files w) = Inr p"
    and "tmp_write e (fst (read f)) = None"
    and "convert_from_path e (fst (read f)) = Inr pages"
    and "k < length pages"
    and "image_to_string e (pages ! k) = Inl err"
  shows "\<exists>m err'. 0 < m \<and> m \<le> Suc k \<and>
           image_to_string e (pages ! (m - 1)) = Inl err' \<and>
           fst (pdf_to_text e f w) = Inl err' \<and>
           (\<forall>s. fst (pdf_to_text e f w) \<noteq> Inr s) \<and>
           ocr_calls (ui (snd (snd (pdf_to_text e f w)))) = ocr_calls (ui w) @ take m pages \<and>
           ((\<forall>j<k. \<forall>x. image_to_string e (pages ! j) \<noteq> Inl x) \<longrightarrow> m = Suc k \<and> err' = err)"
proof -
  from attempted_failure [OF assms(4,5)] obtain m err' where m: "0 < m" "m \<le> Suc k"
    "attempted e pages = take m pages" "image_to_string e (pages ! (m - 1)) = Inl err'"
    "ocr_texts e pages = Inl err'"
    "(\<forall>j<k. \<forall>x. image_to_string e (pages ! j) \<noteq> Inl x) \<longrightarrow> m = Suc k \<and> err' = err"
    by blast
  have r: "fst (pdf_to_text e f w) = Inl err'"
    by (simp add: pdf_to_text_run [OF assms(1,2)] extract_text_def assms(3) m(5))
  have c: "ocr_calls (ui (snd (snd (pdf_to_text e f w)))) = ocr_calls (ui w) @ take m pages"
    by (simp add: pdf_to_text_events [OF assms(1,2,3)] m(3,5) ocr_calls_append
        ocr_calls_page_events)
  from m r c show ?thesis
    by (intro exI [of _ m] exI [of _ err']) simp
qed

theorem ocr_failure_aborts_witness:
  "named_temporary_file failing_ocr_env (files demo_world) = Inr ''/tmp/tmpq7.pdf'' \<and>
   tmp_write failing_ocr_env (fst (read demo_upload)) = None \<and>
   convert_from_path failing_ocr_env (fst (read demo_upload)) = Inr [0, 1, 2] \<and>
   (1::nat) < length [0::nat, 1, 2] \<and>
   image_to_string failing_ocr_env ([0, 1, 2] ! 1) =
     Inl (Exn ''TesseractError'' ''(1, Error during processing.)'') \<and>
   fst (pdf_to_text failing_ocr_env demo_upload demo_world) =
     Inl (Exn ''TesseractError'' ''(1, Error during processing.)'') \<and>
   ocr_calls (ui (snd (snd (pdf_to_text failing_ocr_env demo_upload demo_world)))) = [0, 1]"
proof -
  have h1: "named_temporary_file failing_ocr_env (files demo_world) = Inr ''/tmp/tmpq7.pdf''"
    by (simp add: failing_ocr_env_def)
  have h2: "tmp_write failing_ocr_env (fst (read demo_upload)) = None"
    by (simp add: failing_ocr_env_def)
  have h3: "convert_from_path failing_ocr_env (fst (read demo_upload)) = Inr [0, 1, 2]"
    by (simp add: failing_ocr_env_def)
  have h4: "(1::nat) < length [0::nat, 1, 2]"
    by simp
  have h5: "image_to_string failing_ocr_env ([0, 1, 2] ! 1) =
      Inl (Exn ''TesseractError'' ''(1, Error during processing.)'')"
    by (simp add: failing_ocr_env_def)
  have first: "\<forall>j<1::nat. \<forall>x. image_to_string failing_ocr_env ([0, 1, 2] ! j) \<noteq> Inl x"
    by (simp add: failing_ocr_env_def)
  from ocr_failure_aborts [OF h1 h2 h3 h4 h5] first
  have "fst (pdf_to_text failing_ocr_env demo_upload demo_world) =
          Inl (Exn ''TesseractError'' ''(1, Error during processing.)'') \<and>
        ocr_calls (ui (snd (snd (pdf_to_text failing_ocr_env demo_upload demo_world)))) =
          ocr_calls (ui demo_world) @ take (Suc 1) [0, 1, 2]"
    by auto
  then show ?thesis
    using h1 h2 h3 h5 by (simp add: demo_world_def)
qed

text \<open>
  Claim C5, as stated, fails: the program defines no \<^verbatim>\<open>ExtractionError\<close> and wraps
  nothing. On an upload that the rasterizer rejects, what \<open>pdf_to_text\<close> raises is the
  rasterizer's own exception, here of class \<^verbatim>\<open>PDFPageCountError\<close>.
\<close>

theorem rasterizer_failure_not_wrapped_counterexample:
  "convert_from_path demo_env (fst (read not_a_pdf)) =
     Inl (Exn ''PDFPageCountError'' ''Unable to get page count.'') \<and>
   fst (pdf_to_text demo_env not_a_pdf demo_world) =
     Inl (Exn ''PDFPageCountError'' ''Unable to get page count.'') \<and>
   exn_class (projl (fst (pdf_to_text demo_env not_a_pdf demo_world))) \<noteq> ''ExtractionError''"
proof -
  have h1: "named_temporary_file demo_env (files demo_world) = Inr ''/tmp/tmpq7.pdf''"
    by (simp add: demo_env_def)
  have h2: "tmp_write demo_env (fst (read not_a_pdf)) = None"
    by (simp add: demo_env_def)
  have h3: "convert_from_path demo_env (fst (read not_a_pdf)) =
      Inl (Exn ''PDFPageCountError'' ''Unable to get page count.'')"
    by (simp add: demo_env_def not_a_pdf_def read_def)
  have r: "fst (pdf_to_text demo_env not_a_pdf demo_world) =
      Inl (Exn ''PDFPageCountError'' ''Unable to get page count.'')"
    by (simp add: pdf_to_text_run [OF h1 h2] extract_text_def h3)
  show ?thesis
    by (simp add: r h3)
qed

text \<open>
  Claim C5, amended. When the rasterizer rejects the staged bytes, \<open>pdf_to_text\<close> raises the
  rasterizer's own exception, unchanged, returns no string and emits nothing; \<open>main\<close>
  catches it and shows the error message built from \<^verbatim>\<open>str(e)\<close>, followed by the hint.
\<close>

theorem rasterizer_failure_propagates:
  assumes "named_temporary_file e (files w) = Inr p"
    and "tmp_write e (fst (read f)) = None"
    and "convert_from_path e (fst (read f)) = Inl err"
  shows "fst (pdf_to_text e f w) = Inl err \<and>
         (\<forall>s. fst (pdf_to_text e f w) \<noteq> Inr s) \<and>
         ui (snd (snd (pdf_to_text e f w))) = ui w \<and>
         ui (snd (main e (Some f) True w)) =
           ui w @ [Success (''File uploaded: '' @ name f), InfoFileSize (file_size f),
                   Spinner ''Processing PDF... This may take a few moments.'',
                   Error (error_msg err), Info error_hint]"
proof -
  let ?w1 = "emit [Spinner ''Processing PDF... This may take a few moments.''] (announce f w)"
  have fw: "files ?w1 = files w"
    by (simp add: emit_def announce_def)
  from assms(1) have tmp: "named_temporary_file e (files ?w1) = Inr p"
    by (simp only: fw)
  have r: "fst (pdf_to_text e f w) = Inl err"
    by (simp add: pdf_to_text_run [OF assms(1,2)] extract_text_def assms(3))
  have u: "ui (snd (snd (pdf_to_text e f w))) = ui w"
    by (simp add: pdf_to_text_run [OF assms(1,2)] run_events_def assms(3))
  have run: "pdf_to_text e f ?w1 =
      (Inl err, snd (read f), \<lparr>files = (files ?w1)(p := None), ui = ui ?w1\<rparr>)"
    by (simp add: pdf_to_text_run [OF tmp assms(2)] extract_text_def run_events_def assms(3))
  have "main e (Some f) True w =
      (Some (snd (read f)),
       emit [Error (error_msg err), Info error_hint] \<lparr>files = (files ?w1)(p := None), ui = ui ?w1\<rparr>)"
    by (simp add: main_def run)
  then have m: "ui (snd (main e (Some f) True w)) =
           ui w @ [Success (''File uploaded: '' @ name f), InfoFileSize (file_size f),
                   Spinner ''Processing PDF... This may take a few moments.'',
                   Error (error_msg err), Info error_hint]"
    by (simp add: emit_def announce_def)
  from r u m show ?thesis by simp
qed

theorem rasterizer_failure_propagates_witness:
  "named_temporary_file demo_env (files demo_world) = Inr ''/tmp/tmpq7.pdf'' \<and>
   tmp_write demo_env (fst (read not_a_pdf)) = None \<and>
   convert_from_path demo_env (fst (read not_a_pdf)) =
     Inl (Exn ''PDFPageCountError'' ''Unable to get page count.'') \<and>
   fst (pdf_to_text demo_env not_a_pdf demo_world) =
     Inl (Exn ''PDFPageCountError'' ''Unable to get page count.'')"
proof -
  have h1: "named_temporary_file demo_env (files demo_world) = Inr ''/tmp/tmpq7.pdf''"
    by (simp add: demo_env_def)
  have h2: "tmp_write demo_env (fst (read not_a_pdf)) = None"
    by (simp add: demo_env_def)
  have h3: "convert_from_path demo_env (fst (read not_a_pdf)) =
      Inl (Exn ''PDFPageCountError'' ''Unable to get page count.'')"
    by (simp add: demo_env_def not_a_pdf_def read_def)
  from rasterizer_failure_propagates [OF h1 h2 h3] h1 h2 h3 show ?thesis
    by simp
qed

text \<open>
  Claim C6, as stated, fails: the report for a page is made before the OCR call for that
  page, not after it. With three pages and an OCR engine that raises on the second one, the
  bar has been set for pages 1 and 2 when the call raises, not for page 1 alone.
\<close>

theorem progress_precedes_ocr_counterexample:
  "fst (pdf_to_text failing_ocr_env demo_upload demo_world) =
     Inl (Exn ''TesseractError'' ''(1, Error during processing.)'') \<and>
   ui (snd (snd (pdf_to_text failing_ocr_env demo_upload demo_world))) =
     [ProgressCreate, StatusCreate,
      StatusText ''Processing page 1/3...'', ProgressBar 1 3, OcrCall 0,
      StatusText ''Processing page 2/3...'', ProgressBar 2 3, OcrCall 1] \<and>
   image_to_string failing_ocr_env 1 = Inl (Exn ''TesseractError'' ''(1, Error during processing.)'') \<and>
   bar_reports (ui (snd (snd (pdf_to_text failing_ocr_env demo_upload demo_world)))) \<noteq> [(1, 3)]"
proof -
  have h1: "named_temporary_file failing_ocr_env (files demo_world) = Inr ''/tmp/tmpq7.pdf''"
    by (simp add: failing_ocr_env_def)
  have h2: "tmp_write failing_ocr_env (fst (read demo_upload)) = None"
    by (simp add: failing_ocr_env_def)
  have c: "convert_from_path failing_ocr_env (fst (read demo_upload)) = Inr [0, 1, 2]"
    by (simp add: failing_ocr_env_def)
  have i0: "image_to_string failing_ocr_env 0 = Inr ''A''"
    by (simp add: failing_ocr_env_def)
  have i1: "image_to_string failing_ocr_env (Suc 0) =
      Inl (Exn ''TesseractError'' ''(1, Error during processing.)'')"
    by (simp add: failing_ocr_env_def)
  have m1: "processing_msg (Suc 0) (Suc (Suc (Suc 0))) = ''Processing page 1/3...''"
    by code_simp
  have m2: "processing_msg (Suc (Suc 0)) (Suc (Suc (Suc 0))) = ''Processing page 2/3...''"
    by code_simp
  have uw: "ui demo_world = []"
    by (simp add: demo_world_def)
  have r: "fst (pdf_to_text failing_ocr_env demo_upload demo_world) =
     Inl (Exn ''TesseractError'' ''(1, Error during processing.)'')"
    by (simp add: pdf_to_text_run [OF h1 h2] extract_text_def c i0 i1)
  have u: "ui (snd (snd (pdf_to_text failing_ocr_env demo_upload demo_world))) =
     [ProgressCreate, StatusCreate,
      StatusText ''Processing page 1/3...'', ProgressBar 1 3, OcrCall 0,
      StatusText ''Processing page 2/3...'', ProgressBar 2 3, OcrCall 1]"
    by (simp add: pdf_to_text_run [OF h1 h2] run_events_def c i0 i1 uw m1 m2)
  show ?thesis
    by (simp add: r u i1)
qed

text \<open>
  Claim C6, amended. On a staged and rasterized run the events are: the two widgets, then
  for each attempted page, in page order, the status line, the progress report and the OCR
  call, in this order, then the closing message when every page succeeded. So the report
  for page \<open>i\<close> comes after the OCR of pages \<open>1\<close> to \<open>i - 1\<close> has returned and immediately
  before the OCR call for page \<open>i\<close>; a run whose OCR first raises on the page at index \<open>k\<close>
  (counted from 0, that is page \<open>k + 1\<close>) has reported exactly the pages \<open>1\<close> to \<open>k + 1\<close>.
\<close>

theorem progress_precedes_ocr:
  assumes "named_temporary_file e (files w) = Inr p"
    and "tmp_write e (fst (read f)) = None"
    and "convert_from_path e (fst (read f)) = Inr pages"
  shows "ui (snd (snd (pdf_to_text e f w))) =
           ui w @ [ProgressCreate, StatusCreate] @
           page_events (length pages) 1 (attempted e pages) @
           (case ocr_texts e pages of Inl err \<Rightarrow> [] | Inr ts \<Rightarrow> [StatusText ''OCR processing complete!'']) \<and>
         (\<forall>k err. k < length pages \<and> image_to_string e (pages ! k) = Inl err \<and>
             (\<forall>j<k. \<forall>x. image_to_string e (pages ! j) \<noteq> Inl x) \<longrightarrow>
           attempted e pages = take (Suc k) pages \<and>
           bar_reports (ui (snd (snd (pdf_to_text e f w)))) =
             bar_reports (ui w) @ map (\<lambda>i. (i, length pages)) [1..<Suc (Suc k)])"
proof (intro conjI allI impI)
  show ev: "ui (snd (snd (pdf_to_text e f w))) =
           ui w @ [ProgressCreate, StatusCreate] @
           page_events (length pages) 1 (attempted e pages) @
           (case ocr_texts e pages of Inl err \<Rightarrow> [] | Inr ts \<Rightarrow> [StatusText ''OCR processing complete!''])"
    by (rule pdf_to_text_events [OF assms])
  fix k err
  assume a: "k < length pages \<and> image_to_string e (pages ! k) = Inl err \<and>
             (\<forall>j<k. \<forall>x. image_to_string e (pages ! j) \<noteq> Inl x)"
  then have k: "k < length pages" and fl: "image_to_string e (pages ! k) = Inl err"
    and first: "\<forall>j<k. \<forall>x. image_to_string e (pages ! j) \<noteq> Inl x"
    by simp_all
  from attempted_failure [OF k fl] first obtain err' where
    att: "attempted e pages = take (Suc k) pages" and ot: "ocr_texts e pages = Inl err'"
    by auto
  show "attempted e pages = take (Suc k) pages" by (rule att)
  have len: "min (length pages) (Suc k) = Suc k"
    using k by simp
  show "bar_reports (ui (snd (snd (pdf_to_text e f w)))) =
             bar_reports (ui w) @ map (\<lambda>i. (i, length pages)) [1..<Suc (Suc k)]"
    by (simp add: ev att ot bar_reports_append bar_reports_page_events len del: take_Suc_Cons upt_Suc)
qed

theorem progress_precedes_ocr_witness:
  "named_temporary_file failing_ocr_env (files demo_world) = Inr ''/tmp/tmpq7.pdf'' \<and>
   tmp_write failing_ocr_env (fst (read demo_upload)) = None \<and>
   convert_from_path failing_ocr_env (fst (read demo_upload)) = Inr [0, 1, 2] \<and>
   (1::nat) < length [0::nat, 1, 2] \<and>
   image_to_string failing_ocr_env ([0, 1, 2] ! 1) =
     Inl (Exn ''TesseractError'' ''(1, Error during processing.)'') \<and>
   image_to_string failing_ocr_env ([0, 1, 2] ! 0) = Inr ''A'' \<and>
   attempted failing_ocr_env [0, 1, 2] = [0, 1] \<and>
   bar_reports (ui (snd (snd (pdf_to_text failing_ocr_env demo_upload demo_world)))) =
     [(1, 3), (2, 3)]"
proof -
  have h1: "named_temporary_file failing_ocr_env (files demo_world) = Inr ''/tmp/tmpq7.pdf''"
    by (simp add: failing_ocr_env_def)
  have h2: "tmp_write failing_ocr_env (fst (read demo_upload)) = None"
    by (simp add: failing_ocr_env_def)
  have h3: "convert_from_path failing_ocr_env (fst (read demo_upload)) = Inr [0, 1, 2]"
    by (simp add: failing_ocr_env_def)
  have h4: "(1::nat) < length [0::nat, 1, 2] \<and>
      image_to_string failing_ocr_env ([0, 1, 2] ! 1) =
        Inl (Exn ''TesseractError'' ''(1, Error during processing.)'') \<and>
      (\<forall>j<1::nat. \<forall>x. image_to_string failing_ocr_env ([0, 1, 2] ! j) \<noteq> Inl x)"
    by (simp add: failing_ocr_env_def)
  have u: "[1..<Suc (Suc 1)] = [1, 2]"
    by (simp add: upt_rec)
  have uw: "bar_reports (ui demo_world) = []"
    by (simp add: demo_world_def)
  from progress_precedes_ocr [OF h1 h2 h3] h4
  have "attempted failing_ocr_env [0, 1, 2] = take (Suc 1) [0, 1, 2] \<and>
        bar_reports (ui (snd (snd (pdf_to_text failing_ocr_env demo_upload demo_world)))) =
          bar_reports (ui demo_world) @ map (\<lambda>i. (i, length [0::nat, 1, 2])) [1..<Suc (Suc 1)]"
    by blast
  moreover have "image_to_string failing_ocr_env ([0, 1, 2] ! 0) = Inr ''A''"
    by (simp add: failing_ocr_env_def)
  ultimately show ?thesis
    using h1 h2 h3 h4 by (simp add: u uw)
qed

text \<open>
  Claim C7, as stated, fails for a name with \<^verbatim>\<open>.pdf\<close> inside: \<^verbatim>\<open>str.replace\<close> removes every
  occurrence, not only the suffix. For \<^verbatim>\<open>my.pdf.v2.pdf\<close> the download is named
  \<^verbatim>\<open>my.v2_extracted.txt\<close>, where removing the suffix gives \<^verbatim>\<open>my.pdf.v2_extracted.txt\<close>.
\<close>

theorem download_name_counterexample:
  "download_file_name ''my.pdf.v2.pdf'' = ''my.v2_extracted.txt'' \<and>
   claimed_download_name ''my.pdf.v2.pdf'' = ''my.pdf.v2_extracted.txt'' \<and>
   download_file_name ''my.pdf.v2.pdf'' \<noteq> claimed_download_name ''my.pdf.v2.pdf''"
  by (simp add: download_file_name_def claimed_download_name_def remove_pdf_suffix_def suffix_def)

text \<open>
  Claim C7, amended. When the extracted text is not blank, the last thing \<open>main\<close> renders is
  the download button, with the text as data, MIME type \<^verbatim>\<open>text/plain\<close> and, as file name,
  the original name with every occurrence of \<^verbatim>\<open>.pdf\<close> removed, followed by
  \<^verbatim>\<open>_extracted.txt\<close>. For a name that ends in \<^verbatim>\<open>.pdf\<close> and has no other occurrence of it,
  that is the name without its suffix, followed by \<^verbatim>\<open>_extracted.txt\<close>.
\<close>

theorem download_name_replaces_all:
  assumes "fst (pdf_to_text e f (emit [Spinner ''Processing PDF... This may take a few moments.''] (announce f w))) = Inr text"
    and "strip text \<noteq> []"
  shows "last (ui (snd (main e (Some f) True w))) =
           DownloadButton download_label text (replace ''.pdf'' [] (name f) @ ''_extracted.txt'') ''text/plain'' \<and>
         (\<forall>stem. name f = stem @ ''.pdf'' \<and> \<not> sublist ''.pdf'' stem \<longrightarrow>
            replace ''.pdf'' [] (name f) @ ''_extracted.txt'' = stem @ ''_extracted.txt'')"
proof -
  let ?w1 = "emit [Spinner ''Processing PDF... This may take a few moments.''] (announce f w)"
  from assms(1) obtain f' w2 where run: "pdf_to_text e f ?w1 = (Inr text, f', w2)"
    by (cases "pdf_to_text e f ?w1") auto
  have "main e (Some f) True w = (Some f', emit (render_text f text) w2)"
    using assms(2) by (simp add: main_def run)
  then have "last (ui (snd (main e (Some f) True w))) =
      DownloadButton download_label text (download_file_name (name f)) ''text/plain''"
    by (simp add: emit_def render_text_def)
  then show ?thesis
    by (auto simp: download_file_name_def replace_only_suffix)
qed

theorem download_name_replaces_all_witness:
  "fst (pdf_to_text demo_env archive_upload
      (emit [Spinner ''Processing PDF... This may take a few moments.''] (announce archive_upload demo_world))) =
     Inr (''A'' @ [newline, newline] @ ''B'') \<and>
   strip (''A'' @ [newline, newline] @ ''B'') \<noteq> [] \<and>
   last (ui (snd (main demo_env (Some archive_upload) True demo_world))) =
     DownloadButton download_label (''A'' @ [newline, newline] @ ''B'') ''my.v2_extracted.txt'' ''text/plain'' \<and>
   fst (pdf_to_text demo_env demo_upload
      (emit [Spinner ''Processing PDF... This may take a few moments.''] (announce demo_upload demo_world))) =
     Inr (''A'' @ [newline, newline] @ ''B'') \<and>
   name demo_upload = ''doc'' @ ''.pdf'' \<and> \<not> sublist ''.pdf'' ''doc'' \<and>
   last (ui (snd (main demo_env (Some demo_upload) True demo_world))) =
     DownloadButton download_label (''A'' @ [newline, newline] @ ''B'') ''doc_extracted.txt'' ''text/plain''"
proof -
  let ?w1 = "emit [Spinner ''Processing PDF... This may take a few moments.''] (announce archive_upload demo_world)"
  let ?w2 = "emit [Spinner ''Processing PDF... This may take a few moments.''] (announce demo_upload demo_world)"
  have h1: "\<And>w. named_temporary_file demo_env (files w) = Inr ''/tmp/tmpq7.pdf''"
    by (simp add: demo_env_def)
  have h2: "\<And>f. tmp_write demo_env (fst (read f)) = None"
    by (simp add: demo_env_def)
  have a: "fst (pdf_to_text demo_env archive_upload ?w1) = Inr (''A'' @ [newline, newline] @ ''B'')"
    by (simp add: pdf_to_text_run [OF h1 h2] extract_text_def)
       (simp add: demo_env_def archive_upload_def read_def)
  have a': "fst (pdf_to_text demo_env demo_upload ?w2) = Inr (''A'' @ [newline, newline] @ ''B'')"
    by (simp add: pdf_to_text_run [OF h1 h2] extract_text_def)
       (simp add: demo_env_def demo_upload_def read_def)
  have b: "strip (''A'' @ [newline, newline] @ ''B'') \<noteq> []"
    by (simp add: strip_def isspace_def newline_def)
  have n: "replace ''.pdf'' [] (name archive_upload) @ ''_extracted.txt'' = ''my.v2_extracted.txt''"
    by (simp add: archive_upload_def)
  have d: "name demo_upload = ''doc'' @ ''.pdf''"
    by (simp add: demo_upload_def)
  have ns: "\<not> sublist ''.pdf'' ''doc''"
    by (simp add: sublist_Cons_right)
  from download_name_replaces_all [OF a' b] d ns
  have l: "last (ui (snd (main demo_env (Some demo_upload) True demo_world))) =
     DownloadButton download_label (''A'' @ [newline, newline] @ ''B'') (''doc'' @ ''_extracted.txt'') ''text/plain''"
    by metis
  from download_name_replaces_all [OF a b] a a' b n d ns l show ?thesis
    by simp
qed

text \<open>
  Claim C8. When every page reads as white space only (or as nothing), \<open>pdf_to_text\<close>
  returns normally, the joined text is blank, and \<open>main\<close> shows exactly one warning and no
  error. A failure looks different: whenever \<open>pdf_to_text\<close> raises, for any upload and any
  collaborators, \<open>main\<close> shows the error message of the exception and no warning. So the
  empty outcome is told apart from the failure outcome.
\<close>

theorem blank_text_is_warning:
  assumes "named_temporary_file e (files w) = Inr p"
    and "tmp_write e (fst (read f)) = None"
    and "convert_from_path e (fst (read f)) = Inr pages"
    and "map (image_to_string e) pages = map Inr texts"
    and "\<forall>t \<in> set texts. \<forall>c \<in> set t. isspace c"
  shows "fst (pdf_to_text e f w) = Inr (join [newline] texts) \<and>
         strip (join [newline] texts) = [] \<and>
         shown_warnings (ui (snd (main e (Some f) True w))) = shown_warnings (ui w) @ [warning_msg] \<and>
         shown_errors (ui (snd (main e (Some f) True w))) = shown_errors (ui w) \<and>
         (\<forall>e' f' w' err.
            fst (pdf_to_text e' f'
                  (emit [Spinner ''Processing PDF... This may take a few moments.''] (announce f' w'))) =
              Inl err \<longrightarrow>
            shown_warnings (ui (snd (main e' (Some f') True w'))) = shown_warnings (ui w') \<and>
            shown_errors (ui (snd (main e' (Some f') True w'))) = shown_errors (ui w') @ [error_msg err])"
proof -
  let ?w1 = "emit [Spinner ''Processing PDF... This may take a few moments.''] (announce f w)"
  let ?evs = "[ProgressCreate, StatusCreate] @ page_events (length pages) 1 pages @
      [StatusText ''OCR processing complete!'']"
  from assms(4) have ts: "ocr_texts e pages = Inr texts"
    by (simp add: ocr_texts_map)
  have fw: "files ?w1 = files w"
    by (simp add: emit_def announce_def)
  from assms(1) have tmp: "named_temporary_file e (files ?w1) = Inr p"
    by (simp only: fw)
  have blank: "strip (join [newline] texts) = []"
    by (rule strip_blank [OF join_blank [OF assms(5)]])
  have r: "fst (pdf_to_text e f w) = Inr (join [newline] texts)"
    by (simp add: pdf_to_text_run [OF assms(1,2)] extract_text_def assms(3) ts)
  have run: "pdf_to_text e f ?w1 =
      (Inr (join [newline] texts), snd (read f),
       \<lparr>files = (files ?w1)(p := None), ui = ui ?w1 @ ?evs\<rparr>)"
    by (simp add: pdf_to_text_run [OF tmp assms(2)] extract_text_def run_events_def assms(3) ts
        attempted_all [OF ts])
  have "main e (Some f) True w =
      (Some (snd (read f)),
       emit [Warning warning_msg] \<lparr>files = (files ?w1)(p := None), ui = ui ?w1 @ ?evs\<rparr>)"
    by (simp add: main_def run blank)
  then have m: "ui (snd (main e (Some f) True w)) =
      ui w @ [Success (''File uploaded: '' @ name f), InfoFileSize (file_size f),
              Spinner ''Processing PDF... This may take a few moments.''] @ ?evs @
      [Warning warning_msg]"
    by (simp add: emit_def announce_def)
  have sw: "shown_warnings (ui (snd (main e (Some f) True w))) = shown_warnings (ui w) @ [warning_msg]"
    by (simp add: m shown_warnings_append shown_warnings_page_events)
  have se: "shown_errors (ui (snd (main e (Some f) True w))) = shown_errors (ui w)"
    by (simp add: m shown_errors_append shown_errors_page_events)
  have fail: "\<forall>e' f' w' err.
      fst (pdf_to_text e' f'
            (emit [Spinner ''Processing PDF... This may take a few moments.''] (announce f' w'))) =
        Inl err \<longrightarrow>
      shown_warnings (ui (snd (main e' (Some f') True w'))) = shown_warnings (ui w') \<and>
      shown_errors (ui (snd (main e' (Some f') True w'))) = shown_errors (ui w') @ [error_msg err]"
    by (intro allI impI) (rule main_failure_shows_error)
  from r blank sw se fail show ?thesis
    by (intro conjI)
qed

theorem blank_text_is_warning_witness:
  "named_temporary_file blank_pages_env (files demo_world) = Inr ''/tmp/tmpq7.pdf'' \<and>
   tmp_write blank_pages_env (fst (read demo_upload)) = None \<and>
   convert_from_path blank_pages_env (fst (read demo_upload)) = Inr [0, 1] \<and>
   map (image_to_string blank_pages_env) [0, 1] = map Inr [[], '' ''] \<and>
   isspace (CHR '' '') \<and>
   fst (pdf_to_text blank_pages_env demo_upload demo_world) = Inr [newline, CHR '' ''] \<and>
   shown_warnings (ui (snd (main blank_pages_env (Some demo_upload) True demo_world))) = [warning_msg] \<and>
   shown_errors (ui (snd (main blank_pages_env (Some demo_upload) True demo_world))) = [] \<and>
   fst (pdf_to_text demo_env not_a_pdf
         (emit [Spinner ''Processing PDF... This may take a few moments.''] (announce not_a_pdf demo_world))) =
     Inl (Exn ''PDFPageCountError'' ''Unable to get page count.'') \<and>
   shown_warnings (ui (snd (main demo_env (Some not_a_pdf) True demo_world))) = [] \<and>
   shown_errors (ui (snd (main demo_env (Some not_a_pdf) True demo_world))) =
     [error_msg (Exn ''PDFPageCountError'' ''Unable to get page count.'')]"
proof -
  let ?w1 = "emit [Spinner ''Processing PDF... This may take a few moments.''] (announce not_a_pdf demo_world)"
  have h1: "named_temporary_file blank_pages_env (files demo_world) = Inr ''/tmp/tmpq7.pdf''"
    by (simp add: blank_pages_env_def)
  have h2: "tmp_write blank_pages_env (fst (read demo_upload)) = None"
    by (simp add: blank_pages_env_def)
  have h3: "convert_from_path blank_pages_env (fst (read demo_upload)) = Inr [0, 1]"
    by (simp add: blank_pages_env_def)
  have h4: "map (image_to_string blank_pages_env) [0, 1] = map Inr [[], '' '']"
    by (simp add: blank_pages_env_def)
  have h5: "\<forall>t \<in> set [[], '' '']. \<forall>c \<in> set t. isspace c"
    by (simp add: isspace_def)
  have uw: "ui demo_world = []"
    by (simp add: demo_world_def)
  have g1: "named_temporary_file demo_env (files ?w1) = Inr ''/tmp/tmpq7.pdf''"
    by (simp add: demo_env_def)
  have g2: "tmp_write demo_env (fst (read not_a_pdf)) = None"
    by (simp add: demo_env_def)
  have g3: "convert_from_path demo_env (fst (read not_a_pdf)) =
      Inl (Exn ''PDFPageCountError'' ''Unable to get page count.'')"
    by (simp add: demo_env_def not_a_pdf_def read_def)
  have fl: "fst (pdf_to_text demo_env not_a_pdf ?w1) =
      Inl (Exn ''PDFPageCountError'' ''Unable to get page count.'')"
    by (simp add: pdf_to_text_run [OF g1 g2] extract_text_def g3)
  note blank = blank_text_is_warning [OF h1 h2 h3 h4 h5]
  from blank fl
  have "shown_warnings (ui (snd (main demo_env (Some not_a_pdf) True demo_world))) =
          shown_warnings (ui demo_world) \<and>
        shown_errors (ui (snd (main demo_env (Some not_a_pdf) True demo_world))) =
          shown_errors (ui demo_world) @ [error_msg (Exn ''PDFPageCountError'' ''Unable to get page count.'')]"
    by blast
  moreover from blank
  have "fst (pdf_to_text blank_pages_env demo_upload demo_world) = Inr (join [newline] [[], '' '']) \<and>
        shown_warnings (ui (snd (main blank_pages_env (Some demo_upload) True demo_world))) =
          shown_warnings (ui demo_world) @ [warning_msg] \<and>
        shown_errors (ui (snd (main blank_pages_env (Some demo_upload) True demo_world))) =
          shown_errors (ui demo_world)"
    by blast
  ultimately show ?thesis
    using fl h1 h2 h3 h4 h5 by (simp add: uw)
qed

text \<open>
  Claim C9. The input of a run is the document: the bytes that \<^verbatim>\<open>pdf_file.read()\<close> delivers.
  Two runs on the same input, with the same rasterizer and OCR engine, have the same outcome,
  whatever files and events the worlds they start in hold (in particular when the second
  run starts in the world the first one left) and whatever names the temporary files are
  given. Nothing of a run is carried into the next one: of the world it changes only the
  event trace, the staged file being removed again, and of its argument only the read
  position.
\<close>

theorem extraction_is_deterministic:
  assumes "convert_from_path e1 = convert_from_path e2"
    and "image_to_string e1 = image_to_string e2"
    and "fst (read f1) = fst (read f2)"
    and "named_temporary_file e1 (files w1) = Inr p1"
    and "tmp_write e1 (fst (read f1)) = None"
    and "named_temporary_file e2 (files w2) = Inr p2"
    and "tmp_write e2 (fst (read f2)) = None"
  shows "fst (pdf_to_text e1 f1 w1) = fst (pdf_to_text e2 f2 w2) \<and>
         fst (snd (pdf_to_text e1 f1 w1)) = f1\<lparr>pos := max (pos f1) (length (buffer f1))\<rparr> \<and>
         files (snd (snd (pdf_to_text e1 f1 w1))) = (files w1)(p1 := None)"
proof -
  have ot: "\<And>pages. ocr_texts e1 pages = ocr_texts e2 pages"
  proof -
    fix pages
    show "ocr_texts e1 pages = ocr_texts e2 pages"
      by (induction pages) (auto simp: assms(2) split: sum.splits)
  qed
  have "extract_text e1 (fst (read f1)) = extract_text e2 (fst (read f2))"
    by (simp add: extract_text_def assms(1,3) ot cong: sum.case_cong)
  then show ?thesis
    by (simp add: pdf_to_text_run [OF assms(4,5)] pdf_to_text_run [OF assms(6,7)] read_def)
qed

theorem extraction_is_deterministic_witness:
  "convert_from_path demo_env = convert_from_path demo_env \<and>
   image_to_string demo_env = image_to_string demo_env \<and>
   fst (read demo_upload) = fst (read demo_upload) \<and>
   named_temporary_file demo_env (files demo_world) = Inr ''/tmp/tmpq7.pdf'' \<and>
   tmp_write demo_env (fst (read demo_upload)) = None \<and>
   named_temporary_file demo_env (files (snd (snd (pdf_to_text demo_env demo_upload demo_world)))) =
     Inr ''/tmp/tmpq7.pdf'' \<and>
   fst (pdf_to_text demo_env demo_upload demo_world) = Inr (''A'' @ [newline, newline] @ ''B'') \<and>
   fst (pdf_to_text demo_env demo_upload (snd (snd (pdf_to_text demo_env demo_upload demo_world)))) =
     Inr (''A'' @ [newline, newline] @ ''B'')"
proof -
  let ?w2 = "snd (snd (pdf_to_text demo_env demo_upload demo_world))"
  have h1: "\<And>w. named_temporary_file demo_env (files w) = Inr ''/tmp/tmpq7.pdf''"
    by (simp add: demo_env_def)
  have h2: "tmp_write demo_env (fst (read demo_upload)) = None"
    by (simp add: demo_env_def)
  have r1: "fst (pdf_to_text demo_env demo_upload demo_world) = Inr (''A'' @ [newline, newline] @ ''B'')"
    by (simp add: pdf_to_text_run [OF h1 h2] extract_text_def)
       (simp add: demo_env_def demo_upload_def read_def)
  from extraction_is_deterministic [OF refl refl refl h1 [of demo_world] h2 h1 [of ?w2] h2]
  have "fst (pdf_to_text demo_env demo_upload demo_world) = fst (pdf_to_text demo_env demo_upload ?w2)"
    by (rule conjunct1)
  with r1 have r2: "fst (pdf_to_text demo_env demo_upload ?w2) = Inr (''A'' @ [newline, newline] @ ''B'')"
    by simp
  from r1 r2 h1 [of demo_world] h1 [of ?w2] h2 show ?thesis
    by (intro conjI) (rule refl | assumption)+
qed

text \<open>
  Claim C10. When the rasterizer yields no page, \<open>pdf_to_text\<close> returns the empty string,
  makes no progress report and calls the OCR engine on nothing. Whatever the pages, the
  loop is run with the page count of the list it walks, so the quotient \<^verbatim>\<open>i / len(pages)\<close>
  is only computed when there is a page: unless the OCR engine itself raises it, the loop
  never ends in \<^verbatim>\<open>ZeroDivisionError\<close>.
\<close>

theorem zero_pages_give_empty_text:
  "(named_temporary_file e (files w) = Inr p \<and> tmp_write e (fst (read f)) = None \<and>
    convert_from_path e (fst (read f)) = Inr [] \<longrightarrow>
      fst (pdf_to_text e f w) = Inr [] \<and>
      bar_reports (ui (snd (snd (pdf_to_text e f w)))) = bar_reports (ui w) \<and>
      ocr_calls (ui (snd (snd (pdf_to_text e f w)))) = ocr_calls (ui w)) \<and>
   ((\<forall>p \<in> set pages. image_to_string e p \<noteq> Inl ZeroDivisionError) \<longrightarrow>
      fst (ocr_loop e (length pages) 1 pages [] w) \<noteq> Inl ZeroDivisionError)"
proof (intro conjI impI)
  assume a: "named_temporary_file e (files w) = Inr p \<and> tmp_write e (fst (read f)) = None \<and>
    convert_from_path e (fst (read f)) = Inr []"
  then have run: "pdf_to_text e f w =
     (extract_text e (fst (read f)), snd (read f),
      \<lparr>files = (files w)(p := None), ui = ui w @ run_events e (fst (read f))\<rparr>)"
    by (simp add: pdf_to_text_run)
  from a show "fst (pdf_to_text e f w) = Inr []"
    by (simp add: run extract_text_def)
  from a show "bar_reports (ui (snd (snd (pdf_to_text e f w)))) = bar_reports (ui w)"
    by (simp add: run run_events_def bar_reports_append)
  from a show "ocr_calls (ui (snd (snd (pdf_to_text e f w)))) = ocr_calls (ui w)"
    by (simp add: run run_events_def ocr_calls_append)
next
  assume a: "\<forall>p \<in> set pages. image_to_string e p \<noteq> Inl ZeroDivisionError"
  have n: "pages = [] \<or> 0 < length pages" by (cases pages) simp_all
  from ocr_texts_no_zero_division [OF a]
  show "fst (ocr_loop e (length pages) 1 pages [] w) \<noteq> Inl ZeroDivisionError"
    by (auto simp add: ocr_loop_run [OF n] split: sum.splits)
qed

theorem zero_pages_give_empty_text_witness:
  "named_temporary_file no_pages_env (files demo_world) = Inr ''/tmp/tmpq7.pdf'' \<and>
   tmp_write no_pages_env (fst (read demo_upload)) = None \<and>
   convert_from_path no_pages_env (fst (read demo_upload)) = Inr [] \<and>
   fst (pdf_to_text no_pages_env demo_upload demo_world) = Inr [] \<and>
   bar_reports (ui (snd (snd (pdf_to_text no_pages_env demo_upload demo_world)))) = [] \<and>
   image_to_string demo_env 0 \<noteq> Inl ZeroDivisionError \<and>
   image_to_string demo_env 1 \<noteq> Inl ZeroDivisionError \<and>
   image_to_string demo_env 2 \<noteq> Inl ZeroDivisionError \<and>
   fst (ocr_loop demo_env (length [0::nat, 1, 2]) 1 [0, 1, 2] [] demo_world) \<noteq> Inl ZeroDivisionError"
proof -
  have h: "named_temporary_file no_pages_env (files demo_world) = Inr ''/tmp/tmpq7.pdf'' \<and>
      tmp_write no_pages_env (fst (read demo_upload)) = None \<and>
      convert_from_path no_pages_env (fst (read demo_upload)) = Inr []"
    by (simp add: no_pages_env_def)
  have q: "\<forall>p \<in> set [0, 1, 2]. image_to_string demo_env p \<noteq> Inl ZeroDivisionError"
    by (simp add: demo_env_def)
  from zero_pages_give_empty_text [of no_pages_env demo_world "''/tmp/tmpq7.pdf''" demo_upload "[0, 1, 2]"]
    zero_pages_give_empty_text [of demo_env demo_world "''/tmp/tmpq7.pdf''" demo_upload "[0, 1, 2]"]
    h q
  show ?thesis
    by (simp add: demo_world_def)
qed

end
